theory Spec2Isabelle
  imports Main
begin

section \<open>Data model\<close>

text \<open>
  Go's \<open>error\<close> interface, restricted to the values that \<open>server.go\<close> tells apart:
  the sentinel \<open>io.EOF\<close>, the rate-limit error \<open>ratelimited.ErrWriteLimitReached(key)\<close>
  and every other error, carried with its message.
\<close>

datatype error = EOF | ErrWriteLimitReached string | Err string

text \<open>
  \<open>clientmodel.MetricFamily\<close> (an external protobuf type): optional name, help and type,
  and the samples. A sample is opaque here.
\<close>

datatype Metric = Metric nat

record MetricFamily =
  Name :: "string option"
  Help :: "string option"
  Type :: "nat option"
  Metrics :: "Metric list"

text \<open>The zero value \<open>&clientmodel.MetricFamily{}\<close> of line 89.\<close>

definition zero_family :: MetricFamily where
  "zero_family = \<lparr>Name = None, Help = None, Type = None, Metrics = []\<rparr>"

text \<open>
  A slice \<open>[]*clientmodel.MetricFamily\<close>: a list of slots, \<open>None\<close> being the nil pointer.
\<close>

type_synonym families = "MetricFamily option list"

text \<open>\<open>store.PartitionedMetrics\<close>, as built in lines 104 to 107.\<close>

record PartitionedMetrics =
  PartitionKey :: string
  Families :: families

section \<open>Collaborators\<close>

text \<open>
  \<open>expfmt.Decoder\<close> is an interface with hidden state. One call of \<open>Decode(family)\<close>
  either fills the slot and returns nil, or returns an error (\<open>io.EOF\<close> at the clean end
  of the stream) and leaves the slot as it was. A decoder is given by the result of its
  calls in order: \<open>decoder i\<close> is what the call number \<open>i\<close> (from 0) does. Nothing says
  that a decoder ever reports an error.
\<close>

datatype decode_result = Decoded MetricFamily | DecodeFailed error

type_synonym Decoder = "nat \<Rightarrow> decode_result"

text \<open>
  Modelled from the spec: the package \<open>metricfamily\<close> (\<open>Transformer\<close>,
  \<open>MultiTransformer\<close>, \<open>Filter\<close>, \<open>Pack\<close>) is not among the source files. A transform
  pass looks at one family and reports an error, or drops the family (\<open>Inr None\<close>), or
  keeps it, possibly rewritten (\<open>Inr (Some f')\<close>).
\<close>

type_synonym Transformer = "MetricFamily \<Rightarrow> error + MetricFamily option"

text \<open>
  Modelled from the spec: \<open>metricfamily.MultiTransformer\<close> is an ordered chain of passes;
  \<open>With\<close> appends a pass at the end of the chain, and the chain applied to a family runs
  its passes in order, each on the family as the pass before left it, stopping at the
  first error and at the first pass that drops the family.
\<close>

type_synonym MultiTransformer = "Transformer list"

definition With :: "MultiTransformer \<Rightarrow> Transformer \<Rightarrow> MultiTransformer" where
  "With a t = a @ [t]"

fun Transform :: "MultiTransformer \<Rightarrow> Transformer" where
  "Transform [] family = Inr (Some family)"
| "Transform (t # ts) family =
     (case t family of
        Inl err \<Rightarrow> Inl err
      | Inr None \<Rightarrow> Inr None
      | Inr (Some family') \<Rightarrow> Transform ts family')"

text \<open>
  Modelled from the spec: \<open>metricfamily.Filter\<close> applies the chain to the batch in a
  single traversal, in place: the slice keeps its length (the caller of line 99 passes
  the slice by value and goes on with its own copy of the header), a dropped family
  leaves a nil slot, and the first error aborts the traversal.
\<close>

fun Filter :: "families \<Rightarrow> Transformer \<Rightarrow> error + families" where
  "Filter [] t = Inr []"
| "Filter (None # rest) t =
     (case Filter rest t of
        Inl err \<Rightarrow> Inl err
      | Inr rest' \<Rightarrow> Inr (None # rest'))"
| "Filter (Some family # rest) t =
     (case t family of
        Inl err \<Rightarrow> Inl err
      | Inr slot \<Rightarrow>
          (case Filter rest t of
             Inl err \<Rightarrow> Inl err
           | Inr rest' \<Rightarrow> Inr (slot # rest')))"

text \<open>
  Modelled from the spec: \<open>metricfamily.Pack\<close> reshapes the filtered batch into its
  storable form and cannot fail: nil slots are left out, and families with the same name
  are merged into the first of them, which gets the samples of the later ones. The name
  of a family is read with the protobuf getter, which gives the empty string for a name
  that is not set.
\<close>

definition GetName :: "MetricFamily \<Rightarrow> string" where
  "GetName family = (case Name family of None \<Rightarrow> [] | Some n \<Rightarrow> n)"

fun merge_family :: "MetricFamily list \<Rightarrow> MetricFamily \<Rightarrow> MetricFamily list" where
  "merge_family [] family = [family]"
| "merge_family (g # packed) family =
     (if GetName g = GetName family
      then g\<lparr>Metrics := Metrics g @ Metrics family\<rparr> # packed
      else g # merge_family packed family)"

fun pack_into :: "MetricFamily list \<Rightarrow> families \<Rightarrow> MetricFamily list" where
  "pack_into packed [] = packed"
| "pack_into packed (None # rest) = pack_into packed rest"
| "pack_into packed (Some family # rest) = pack_into (merge_family packed family) rest"

definition Pack :: "families \<Rightarrow> families" where
  "Pack fams = map Some (pack_into [] fams)"

text \<open>
  What \<open>Post\<close> reads of an \<open>http.Request\<close>: the method, the header (through
  \<open>Header.Get\<close>, which gives the empty string for an absent key) and the bytes behind the
  body reader.
\<close>

record Request =
  Method :: string
  Header :: "string \<Rightarrow> string"
  Body :: string

text \<open>
  \<open>store.Store\<close>, \<open>validate.Validator\<close> and the process-wide transformer are the fields
  of \<open>Server\<close> (lines 21 to 26; the logger appears as the log effect below).
  \<open>WriteMetrics\<close> is given by the error it returns (\<open>None\<close> is nil) for the batch it is
  handed under the request's context; \<open>Validate\<close> by its error, or the partition key and
  the request-specific transformer.
\<close>

record Server =
  store_WriteMetrics :: "PartitionedMetrics \<Rightarrow> error option"
  transformer :: Transformer
  validator_Validate :: "Request \<Rightarrow> error + (string \<times> Transformer)"

text \<open>
  The library functions that \<open>Post\<close> calls in lines 58 to 63, as parameters: the format
  negotiated from the header, the snappy reader over a reader, and the decoder over a
  reader and a format. A reader is given by the bytes it yields.
\<close>

record Library =
  expfmt_ResponseFormat :: "(string \<Rightarrow> string) \<Rightarrow> string"
  snappy_NewReader :: "string \<Rightarrow> string"
  expfmt_NewDecoder :: "string \<Rightarrow> string \<Rightarrow> Decoder"

text \<open>
  The method \<open>Error()\<close> of an error. Modelled from the spec: the package \<open>ratelimited\<close>
  is not among the source files; the message of the rate-limit error names the condition
  and holds the partition key.
\<close>

fun Error :: "error \<Rightarrow> string" where
  "Error EOF = ''EOF''"
| "Error (ErrWriteLimitReached key) = ''write limit reached for key '' @ key"
| "Error (Err msg) = msg"

section \<open>The ingestion pipeline: \<open>decodeAndStoreMetrics\<close>\<close>

text \<open>
  The loop of lines 88 to 97. Each round appends a fresh zero-value family to the slice
  and then lets the decoder fill it through the pointer. \<open>io.EOF\<close> leaves the loop with
  the slice as it is; any other error returns from the function. The loop has no other
  exit, so it is a partial function: \<open>None\<close> is a loop that never ends.
\<close>

partial_function (option) decode_loop ::
  "Decoder \<Rightarrow> nat \<Rightarrow> families \<Rightarrow> (error + families) option" where
  "decode_loop decoder i fams =
     (case decoder i of
        Decoded family \<Rightarrow>
          decode_loop decoder (Suc i) ((fams @ [Some zero_family])[length fams := Some family])
      | DecodeFailed err \<Rightarrow>
          (if err = EOF then Some (Inr (fams @ [Some zero_family])) else Some (Inl err)))"

text \<open>
  What one run of the pipeline did: the error it returned (\<open>None\<close> is nil), and its calls
  of \<open>metricfamily.Filter\<close> and of \<open>WriteMetrics\<close>, in order, with the batch each was
  handed.
\<close>

datatype pipeline_call = FilterCall families | WriteMetricsCall PartitionedMetrics

record pipeline_run =
  returned :: "error option"
  calls :: "pipeline_call list"

definition decodeAndStoreMetrics ::
  "Server \<Rightarrow> string \<Rightarrow> Decoder \<Rightarrow> Transformer \<Rightarrow> pipeline_run option" where
  "decodeAndStoreMetrics s partitionKey decoder t =
     (case decode_loop decoder 0 [] of
        None \<Rightarrow> None
      | Some (Inl err) \<Rightarrow> Some \<lparr>returned = Some err, calls = []\<rparr>
      | Some (Inr fams) \<Rightarrow>
          (case Filter fams t of
             Inl err \<Rightarrow> Some \<lparr>returned = Some err, calls = [FilterCall fams]\<rparr>
           | Inr fams' \<Rightarrow>
               (let batch = \<lparr>PartitionKey = partitionKey, Families = Pack fams'\<rparr>
                in Some \<lparr>returned = store_WriteMetrics s batch,
                         calls = [FilterCall fams, WriteMetricsCall batch]\<rparr>)))"

text \<open>The batches that reached storage in a run.\<close>

fun stored :: "pipeline_call list \<Rightarrow> PartitionedMetrics list" where
  "stored [] = []"
| "stored (FilterCall fams # cs) = stored cs"
| "stored (WriteMetricsCall batch # cs) = batch # stored cs"

text \<open>The batches that a run handed to \<open>metricfamily.Filter\<close>.\<close>

fun filtered :: "pipeline_call list \<Rightarrow> families list" where
  "filtered [] = []"
| "filtered (FilterCall fams # cs) = fams # filtered cs"
| "filtered (WriteMetricsCall batch # cs) = filtered cs"

section \<open>The request handler: \<open>Post\<close>\<close>

text \<open>
  What the handler does that can be seen from outside, in order: its calls of the
  validator and of \<open>expfmt.NewDecoder\<close>, the start of the goroutine, its writes to the
  \<open>http.ResponseWriter\<close>, its log line, and the deferred \<open>cancel()\<close> and
  \<open>req.Body.Close()\<close>.
\<close>

datatype effect =
    Validate
  | NewDecoder
  | Go
  | WriteHeader nat
  | Write string
  | LogError string
  | Cancel
  | BodyClose

text \<open>
  \<open>http.Error(w, msg, code)\<close> of the standard library writes the status line and then the
  message followed by a newline.
\<close>

definition http_Error :: "string \<Rightarrow> nat \<Rightarrow> effect list" where
  "http_Error msg code = [WriteHeader code, Write (msg @ [CHR 0x0A])]"

text \<open>
  The response the client sees: the status of the first \<open>WriteHeader\<close>, or 200 when the
  handler writes a body first or returns without writing; and the bytes written.
\<close>

fun status :: "effect list \<Rightarrow> nat" where
  "status [] = 200"
| "status (WriteHeader code # es) = code"
| "status (Write bytes # es) = 200"
| "status (e # es) = status es"

fun body :: "effect list \<Rightarrow> string" where
  "body [] = []"
| "body (Write bytes # es) = bytes @ body es"
| "body (e # es) = body es"

text \<open>
  Lines 38 to 66, up to the \<open>select\<close>. The handler either returns (the method check of
  line 38 comes before the deferred close of line 42 is registered; a validator error
  returns after both defers are registered, and deferred calls run last registered
  first), or it has started the goroutine on \<open>decodeAndStoreMetrics\<close> with the partition
  key, the decoder and the chain \<open>t\<close>, and waits in the \<open>select\<close>.
\<close>

datatype begun =
    Returned "effect list"
  | Started string MultiTransformer Decoder "effect list"

definition Post_begin :: "Library \<Rightarrow> Server \<Rightarrow> Request \<Rightarrow> begun" where
  "Post_begin lib s req =
     (if Method req \<noteq> ''POST'' then Returned [WriteHeader 405]
      else
        (case validator_Validate s req of
           Inl err \<Rightarrow> Returned ([Validate] @ http_Error (Error err) 500 @ [Cancel, BodyClose])
         | Inr (partitionKey, transforms) \<Rightarrow>
             (let t = With (With [] transforms) (transformer s);
                  format = expfmt_ResponseFormat lib (Header req);
                  r = (if Header req ''Content-Encoding'' = ''snappy''
                       then snappy_NewReader lib (Body req) else Body req);
                  decoder = expfmt_NewDecoder lib r format
              in Started partitionKey t decoder [Validate, NewDecoder, Go])))"

text \<open>
  Line 65: \<open>make(chan error)\<close> has no capacity argument, so the channel is unbuffered.
\<close>

definition errCh_cap :: nat where
  "errCh_cap = 0"

text \<open>
  Lines 66 to 83: the goroutine and the handler run side by side. The handler is in the
  \<open>select\<close> or has returned; the goroutine is still running the pipeline, or is at its
  send with the error the pipeline returned, or has sent and ended. \<open>ctx_done\<close> says that
  \<open>ctx.Done()\<close> is closed (by the deadline, by the parent context or by \<open>cancel()\<close>),
  \<open>errCh\<close> is the buffer of the channel.
\<close>

datatype handler_state = Selecting | HandlerReturned

datatype goroutine_state = Running | Sending "error option" | Sent

record race =
  handler :: handler_state
  goroutine :: goroutine_state
  ctx_done :: bool
  errCh :: "error option list"
  effects :: "effect list"

definition started :: "effect list \<Rightarrow> race" where
  "started es =
     \<lparr>handler = Selecting, goroutine = Running, ctx_done = False, errCh = [], effects = es\<rparr>"

text \<open>Lines 74 to 81: the switch on the error received from the channel.\<close>

definition respond :: "string \<Rightarrow> error option \<Rightarrow> effect list" where
  "respond partitionKey err =
     (case err of
        None \<Rightarrow> []
      | Some e \<Rightarrow>
          (if e = ErrWriteLimitReached partitionKey then http_Error (Error e) 429
           else http_Error (Error e) 500))"

text \<open>
  The two branches of the \<open>select\<close>, each up to the return of the handler, where the
  deferred \<open>cancel()\<close> and \<open>req.Body.Close()\<close> run.
\<close>

definition Post_timeout :: "race \<Rightarrow> race" where
  "Post_timeout \<sigma> =
     \<sigma>\<lparr>handler := HandlerReturned, ctx_done := True,
       effects := effects \<sigma> @ http_Error ''Timeout while storing metrics'' 500
                  @ [LogError ''timeout processing incoming request'', Cancel, BodyClose]\<rparr>"

definition Post_received :: "string \<Rightarrow> error option \<Rightarrow> race \<Rightarrow> race" where
  "Post_received partitionKey err \<sigma> =
     \<sigma>\<lparr>handler := HandlerReturned, ctx_done := True,
       effects := effects \<sigma> @ respond partitionKey err @ [Cancel, BodyClose]\<rparr>"

text \<open>
  One step of the two, for a channel of capacity \<open>cap\<close>. A send goes through when the
  buffer has room, or when the buffer is empty and the handler is in the \<open>select\<close> to
  receive; otherwise the sender waits. The \<open>select\<close> takes a branch that can proceed:
  the timeout branch once \<open>ctx.Done()\<close> is closed, the receive branch when a value is
  there; with both ready Go picks either.
\<close>

inductive step ::
  "nat \<Rightarrow> Server \<Rightarrow> string \<Rightarrow> MultiTransformer \<Rightarrow> Decoder \<Rightarrow> race \<Rightarrow> race \<Rightarrow> bool"
  for cap :: nat and s :: Server and partitionKey :: string
    and t :: MultiTransformer and decoder :: Decoder where
  ctx_fires:
    "\<not> ctx_done \<sigma> \<Longrightarrow> step cap s partitionKey t decoder \<sigma> (\<sigma>\<lparr>ctx_done := True\<rparr>)"
| pipeline_returns:
    "goroutine \<sigma> = Running \<Longrightarrow>
     decodeAndStoreMetrics s partitionKey decoder (Transform t) = Some run \<Longrightarrow>
     step cap s partitionKey t decoder \<sigma> (\<sigma>\<lparr>goroutine := Sending (returned run)\<rparr>)"
| send_buffered:
    "goroutine \<sigma> = Sending err \<Longrightarrow> length (errCh \<sigma>) < cap \<Longrightarrow>
     step cap s partitionKey t decoder \<sigma> (\<sigma>\<lparr>goroutine := Sent, errCh := errCh \<sigma> @ [err]\<rparr>)"
| send_received:
    "goroutine \<sigma> = Sending err \<Longrightarrow> handler \<sigma> = Selecting \<Longrightarrow> errCh \<sigma> = [] \<Longrightarrow>
     step cap s partitionKey t decoder \<sigma> (Post_received partitionKey err (\<sigma>\<lparr>goroutine := Sent\<rparr>))"
| buffer_received:
    "handler \<sigma> = Selecting \<Longrightarrow> errCh \<sigma> = err # rest \<Longrightarrow>
     step cap s partitionKey t decoder \<sigma> (Post_received partitionKey err (\<sigma>\<lparr>errCh := rest\<rparr>))"
| timeout:
    "handler \<sigma> = Selecting \<Longrightarrow> ctx_done \<sigma> \<Longrightarrow>
     step cap s partitionKey t decoder \<sigma> (Post_timeout \<sigma>)"

text \<open>\<open>Post\<close> after the goroutine is started: the steps with the channel of line 65.\<close>

abbreviation Post_step ::
  "Server \<Rightarrow> string \<Rightarrow> MultiTransformer \<Rightarrow> Decoder \<Rightarrow> race \<Rightarrow> race \<Rightarrow> bool" where
  "Post_step \<equiv> step errCh_cap"

section \<open>Concrete collaborators\<close>

text \<open>
  A pass that keeps every family as it is, a decoder over a well-formed body that holds
  the given families, a store that accepts every batch, a validator that accepts every
  request under the key \<open>''tenant''\<close>, and library functions that read the body as one
  family per byte.
\<close>

definition keep :: Transformer where
  "keep family = Inr (Some family)"

definition body_stream :: "MetricFamily list \<Rightarrow> Decoder" where
  "body_stream fs i = (if i < length fs then Decoded (fs ! i) else DecodeFailed EOF)"

definition named :: "string \<Rightarrow> MetricFamily" where
  "named n = \<lparr>Name = Some n, Help = None, Type = None, Metrics = [Metric 1]\<rparr>"

definition accepting_server :: Server where
  "accepting_server =
     \<lparr>store_WriteMetrics = (\<lambda>batch. None), transformer = keep,
      validator_Validate = (\<lambda>req. Inr (''tenant'', keep))\<rparr>"

definition byte_library :: Library where
  "byte_library =
     \<lparr>expfmt_ResponseFormat = (\<lambda>header. ''text''),
      snappy_NewReader = (\<lambda>r. r),
      expfmt_NewDecoder = (\<lambda>r format. body_stream (map (\<lambda>c. named [c]) r))\<rparr>"

definition get_request :: Request where
  "get_request = \<lparr>Method = ''GET'', Header = (\<lambda>key. []), Body = []\<rparr>"

definition post_request :: Request where
  "post_request = \<lparr>Method = ''POST'', Header = (\<lambda>key. []), Body = ''ab''\<rparr>"

text \<open>A decoder that yields the given families and then fails with the given error.\<close>

definition broken_stream :: "MetricFamily list \<Rightarrow> error \<Rightarrow> Decoder" where
  "broken_stream fs err i = (if i < length fs then Decoded (fs ! i) else DecodeFailed err)"

text \<open>
  A store that refuses every batch with the rate-limit error of the batch's own key, and
  a server whose store fails otherwise and whose validator rejects every request.
\<close>

definition limiting_server :: Server where
  "limiting_server =
     \<lparr>store_WriteMetrics = (\<lambda>batch. Some (ErrWriteLimitReached (PartitionKey batch))),
      transformer = keep,
      validator_Validate = (\<lambda>req. Inr (''tenant'', keep))\<rparr>"

definition failing_server :: Server where
  "failing_server =
     \<lparr>store_WriteMetrics = (\<lambda>batch. Some (Err ''disk full'')),
      transformer = keep,
      validator_Validate = (\<lambda>req. Inl (Err ''unauthorized''))\<rparr>"

text \<open>What the pipeline does on an empty body under the key \<open>''tenant''\<close>.\<close>

definition empty_batch :: PartitionedMetrics where
  "empty_batch = \<lparr>PartitionKey = ''tenant'', Families = [Some zero_family]\<rparr>"

definition empty_run :: "error option \<Rightarrow> pipeline_run" where
  "empty_run err =
     \<lparr>returned = err, calls = [FilterCall [Some zero_family], WriteMetricsCall empty_batch]\<rparr>"

text \<open>
  Two passes whose order shows: one renames every family, the other drops the families
  of that name; and a server whose validator hands out the first and whose process-wide
  transformer is the second.
\<close>

definition rename :: Transformer where
  "rename family = Inr (Some (family\<lparr>Name := Some ''renamed''\<rparr>))"

definition drop_renamed :: Transformer where
  "drop_renamed family = (if GetName family = ''renamed'' then Inr None else Inr (Some family))"

definition renaming_server :: Server where
  "renaming_server =
     \<lparr>store_WriteMetrics = (\<lambda>batch. None), transformer = drop_renamed,
      validator_Validate = (\<lambda>req. Inr (''tenant'', rename))\<rparr>"

text \<open>
  The handler in the \<open>select\<close> with the deadline passed and the pipeline still running;
  and the state after the handler took the timeout branch and the pipeline then came
  to its send.
\<close>

definition deadline_passed :: race where
  "deadline_passed = (started [Validate, NewDecoder, Go])\<lparr>ctx_done := True\<rparr>"

definition abandoned :: race where
  "abandoned = (Post_timeout deadline_passed)\<lparr>goroutine := Sending None\<rparr>"

text \<open>
  Lines 70 to 72 with the deferred calls: all that the timeout branch does.
\<close>

definition timeout_response :: "effect list" where
  "timeout_response =
     http_Error ''Timeout while storing metrics'' 500
     @ [LogError ''timeout processing incoming request'', Cancel, BodyClose]"

text \<open>
  What holds of every state that the handler and the goroutine of one request reach
  (over the unbuffered channel): the channel holds nothing; a goroutine at its send
  carries what the pipeline returned; a goroutine that has sent has been received by
  the handler, which answered from that error; a handler in the \<open>select\<close> has written
  nothing yet; and a handler that returned without receiving took the timeout branch.
\<close>

definition coherent ::
  "Server \<Rightarrow> string \<Rightarrow> MultiTransformer \<Rightarrow> Decoder \<Rightarrow> effect list \<Rightarrow> race \<Rightarrow> bool" where
  "coherent s partitionKey t decoder es \<sigma> =
     (errCh \<sigma> = []
      \<and> (case goroutine \<sigma> of
            Running \<Rightarrow> True
          | Sending err \<Rightarrow>
              (case decodeAndStoreMetrics s partitionKey decoder (Transform t) of
                 None \<Rightarrow> False
               | Some run \<Rightarrow> err = returned run)
          | Sent \<Rightarrow>
              (case decodeAndStoreMetrics s partitionKey decoder (Transform t) of
                 None \<Rightarrow> False
               | Some run \<Rightarrow>
                   handler \<sigma> = HandlerReturned
                   \<and> effects \<sigma> = es @ respond partitionKey (returned run) @ [Cancel, BodyClose]))
      \<and> (case handler \<sigma> of
            Selecting \<Rightarrow> effects \<sigma> = es
          | HandlerReturned \<Rightarrow>
              ctx_done \<sigma> \<and> (goroutine \<sigma> = Sent \<or> effects \<sigma> = es @ timeout_response)))"

text \<open>
  The chain in the spec's words (sections 3 and 4.2): the passes are applied to the
  batch in order, the request-specific pass over the whole batch first, then the
  process-wide pass over what the first one left.
\<close>

definition passes_in_order :: "Transformer \<Rightarrow> Transformer \<Rightarrow> families \<Rightarrow> error + families" where
  "passes_in_order first second fams =
     (case Filter fams first of
        Inl err \<Rightarrow> Inl err
      | Inr fams' \<Rightarrow> Filter fams' second)"

text \<open>
  A POST request with an empty body, a server whose validator accepts and whose store
  fails, the state in which the handler has received an error from the goroutine, the
  state in which it received nil although the deadline had passed, and the batch decoded
  from the body of \<open>post_request\<close>.
\<close>

definition empty_post :: Request where
  "empty_post = \<lparr>Method = ''POST'', Header = (\<lambda>key. []), Body = []\<rparr>"

definition full_server :: Server where
  "full_server =
     \<lparr>store_WriteMetrics = (\<lambda>batch. Some (Err ''disk full'')), transformer = keep,
      validator_Validate = (\<lambda>req. Inr (''tenant'', keep))\<rparr>"

definition delivered :: "error option \<Rightarrow> race" where
  "delivered err =
     Post_received ''tenant'' err ((started [Validate, NewDecoder, Go])\<lparr>goroutine := Sent\<rparr>)"

definition answered_late :: race where
  "answered_late = Post_received ''tenant'' None (deadline_passed\<lparr>goroutine := Sent\<rparr>)"

definition decoded_ab :: families where
  "decoded_ab = [Some (named ''a''), Some (named ''b''), Some zero_family]"

section \<open>The decode loop\<close>

lemma decode_loop_Decoded:
  "decoder i = Decoded family \<Longrightarrow>
   decode_loop decoder i fams = decode_loop decoder (Suc i) (fams @ [Some family])"
  by (subst decode_loop.simps) simp

lemma decode_loop_EOF:
  "decoder i = DecodeFailed EOF \<Longrightarrow>
   decode_loop decoder i fams = Some (Inr (fams @ [Some zero_family]))"
  by (subst decode_loop.simps) simp

lemma decode_loop_error:
  "decoder i = DecodeFailed err \<Longrightarrow> err \<noteq> EOF \<Longrightarrow>
   decode_loop decoder i fams = Some (Inl err)"
  by (subst decode_loop.simps) simp

lemma decode_loop_prefix:
  "(\<And>j. j < length fs \<Longrightarrow> decoder (i + j) = Decoded (fs ! j)) \<Longrightarrow>
   decode_loop decoder i fams = decode_loop decoder (i + length fs) (fams @ map Some fs)"
proof (induction fs arbitrary: i fams)
  case Nil
  then show ?case by simp
next
  case (Cons f fs)
  have first: "decoder i = Decoded f"
    using Cons.prems [of 0] by simp
  have rest: "\<And>j. j < length fs \<Longrightarrow> decoder (Suc i + j) = Decoded (fs ! j)"
    using Cons.prems [of "Suc _"] by simp
  have "decode_loop decoder i fams = decode_loop decoder (Suc i) (fams @ [Some f])"
    using first by (rule decode_loop_Decoded)
  also have "\<dots> = decode_loop decoder (Suc i + length fs) ((fams @ [Some f]) @ map Some fs)"
    using rest by (rule Cons.IH)
  finally show ?case by simp
qed

lemma decode_loop_families:
  assumes "\<forall>j<length fs. decoder j = Decoded (fs ! j)"
    and "decoder (length fs) = DecodeFailed EOF"
  shows "decode_loop decoder 0 [] = Some (Inr (map Some fs @ [Some zero_family]))"
proof -
  have "decode_loop decoder 0 [] = decode_loop decoder (0 + length fs) ([] @ map Some fs)"
    using assms(1) by (intro decode_loop_prefix) simp
  then show ?thesis
    using decode_loop_EOF [of decoder "length fs", OF assms(2)] by simp
qed

lemma decode_loop_fails:
  assumes "\<forall>j<length fs. decoder j = Decoded (fs ! j)"
    and "decoder (length fs) = DecodeFailed err" and "err \<noteq> EOF"
  shows "decode_loop decoder 0 [] = Some (Inl err)"
proof -
  have "decode_loop decoder 0 [] = decode_loop decoder (0 + length fs) ([] @ map Some fs)"
    using assms(1) by (intro decode_loop_prefix) simp
  then show ?thesis
    using decode_loop_error [of decoder "length fs", OF assms(2,3)] by simp
qed

section \<open>The pipeline after the loop\<close>

lemma Filter_keeps:
  "(\<And>family. t family = Inr (Some family)) \<Longrightarrow> Filter fams t = Inr fams"
  by (induction fams t rule: Filter.induct) simp_all

lemma merge_family_fresh:
  "GetName family \<notin> GetName ` set packed \<Longrightarrow> merge_family packed family = packed @ [family]"
  by (induction packed) auto

lemma pack_into_distinct:
  "distinct (map GetName (packed @ fs)) \<Longrightarrow> pack_into packed (map Some fs) = packed @ fs"
proof (induction fs arbitrary: packed)
  case Nil
  then show ?case by simp
next
  case (Cons f fs)
  have fresh: "GetName f \<notin> GetName ` set packed"
    using Cons.prems by auto
  have "distinct (map GetName ((packed @ [f]) @ fs))"
    using Cons.prems by simp
  then have "pack_into (packed @ [f]) (map Some fs) = (packed @ [f]) @ fs"
    by (rule Cons.IH)
  then show ?case
    using fresh by (simp add: merge_family_fresh)
qed

lemma Pack_distinct:
  "distinct (map GetName fs) \<Longrightarrow> Pack (map Some fs) = map Some fs"
  using pack_into_distinct [of "[]" fs] by (simp add: Pack_def)

lemma Transform_keep_keep: "Transform [keep, keep] family = Inr (Some family)"
  by (simp add: keep_def)

lemma stored_one_more:
  assumes "\<forall>j<length fs. decoder j = Decoded (fs ! j)"
    and "decoder (length fs) = DecodeFailed EOF"
    and "\<And>family. t family = Inr (Some family)"
    and "distinct (map GetName fs)" and "\<forall>f\<in>set fs. GetName f \<noteq> []"
  shows "decodeAndStoreMetrics s partitionKey decoder t =
    Some \<lparr>returned = store_WriteMetrics s
             \<lparr>PartitionKey = partitionKey, Families = map Some (fs @ [zero_family])\<rparr>,
          calls = [FilterCall (map Some (fs @ [zero_family])),
                   WriteMetricsCall
                     \<lparr>PartitionKey = partitionKey, Families = map Some (fs @ [zero_family])\<rparr>]\<rparr>"
proof -
  have loop: "decode_loop decoder 0 [] = Some (Inr (map Some (fs @ [zero_family])))"
    using decode_loop_families [OF assms(1,2)] by simp
  have keeps: "Filter (map Some (fs @ [zero_family])) t = Inr (map Some (fs @ [zero_family]))"
    using assms(3) by (rule Filter_keeps)
  have "GetName zero_family = []"
    by (simp add: GetName_def zero_family_def)
  then have "distinct (map GetName (fs @ [zero_family]))"
    using assms(4,5) by auto
  then have packed: "Pack (map Some (fs @ [zero_family])) = map Some (fs @ [zero_family])"
    by (rule Pack_distinct)
  show ?thesis
    unfolding decodeAndStoreMetrics_def loop
    by (simp only: keeps packed option.case sum.case Let_def)
qed

lemma Transform_pair:
  "Transform [a, b] family =
     (case a family of
        Inl err \<Rightarrow> Inl err
      | Inr None \<Rightarrow> Inr None
      | Inr (Some family') \<Rightarrow> b family')"
proof -
  have "Transform [b] family' = b family'" for family'
    by (cases "b family'") (auto split: option.splits)
  then show ?thesis
    by (simp split: sum.splits option.splits)
qed

lemma Filter_in_order_success:
  "passes_in_order a b fams = Inr fams' \<Longrightarrow> Filter fams (Transform [a, b]) = Inr fams'"
proof (induction fams arbitrary: fams')
  case Nil
  then show ?case by (simp add: passes_in_order_def)
next
  case (Cons slot fams)
  show ?case
  proof (cases slot)
    case None
    then show ?thesis
      using Cons.prems Cons.IH
      by (auto simp: passes_in_order_def split: sum.splits)
  next
    case (Some family)
    then show ?thesis
      using Cons.prems Cons.IH
      by (auto simp: passes_in_order_def Transform_pair split: sum.splits option.splits)
  qed
qed

lemma Filter_in_order_failure:
  "passes_in_order a b fams = Inl err \<Longrightarrow> \<exists>err'. Filter fams (Transform [a, b]) = Inl err'"
proof (induction fams arbitrary: err)
  case Nil
  then show ?case by (simp add: passes_in_order_def)
next
  case (Cons slot fams)
  show ?case
  proof (cases slot)
    case None
    then show ?thesis
      using Cons.prems Cons.IH
      by (auto simp: passes_in_order_def split: sum.splits)
  next
    case (Some family)
    then show ?thesis
      using Cons.prems Cons.IH
      by (auto simp: passes_in_order_def Transform_pair split: sum.splits option.splits)
  qed
qed

lemma pipeline_in_order:
  assumes "decode_loop decoder 0 [] = Some (Inr fams)"
  shows "case passes_in_order a b fams of
      Inr fams' \<Rightarrow>
        decodeAndStoreMetrics s partitionKey decoder (Transform [a, b]) =
          Some \<lparr>returned = store_WriteMetrics s
                   \<lparr>PartitionKey = partitionKey, Families = Pack fams'\<rparr>,
                calls = [FilterCall fams,
                         WriteMetricsCall \<lparr>PartitionKey = partitionKey, Families = Pack fams'\<rparr>]\<rparr>
    | Inl err \<Rightarrow>
        (\<exists>err'. decodeAndStoreMetrics s partitionKey decoder (Transform [a, b]) =
          Some \<lparr>returned = Some err', calls = [FilterCall fams]\<rparr>)"
proof (cases "passes_in_order a b fams")
  case (Inl err)
  then obtain err' where "Filter fams (Transform [a, b]) = Inl err'"
    using Filter_in_order_failure by blast
  then show ?thesis
    using Inl assms by (simp add: decodeAndStoreMetrics_def)
next
  case (Inr fams')
  then have "Filter fams (Transform [a, b]) = Inr fams'"
    by (rule Filter_in_order_success)
  then show ?thesis
    using Inr assms by (simp add: decodeAndStoreMetrics_def Let_def)
qed

section \<open>Properties of the pipeline\<close>

text \<open>
  C10: the loop appends a fresh zero-value family before each call of \<open>Decode\<close>. For
  every stream that yields the families \<open>fs\<close> and then the clean end of the stream, the
  pipeline returns, and the batch it hands to \<open>Filter\<close> has \<open>length fs + 1\<close> slots: the
  decoded families in order, and last a zero-value family that the decoder never filled.
  In particular the batch is never empty, also for an empty body.
\<close>

theorem zero_family_appended:
  assumes "\<forall>j<length fs. decoder j = Decoded (fs ! j)"
    and "decoder (length fs) = DecodeFailed EOF"
  shows "\<exists>run fams. decodeAndStoreMetrics s partitionKey decoder t = Some run
           \<and> filtered (calls run) = [fams]
           \<and> length fams = length fs + 1
           \<and> take (length fs) fams = map Some fs
           \<and> last fams = Some zero_family
           \<and> fams \<noteq> []"
proof -
  have loop: "decode_loop decoder 0 [] = Some (Inr (map Some fs @ [Some zero_family]))"
    using assms by (rule decode_loop_families)
  show ?thesis
    unfolding decodeAndStoreMetrics_def loop
    by (cases "Filter (map Some fs @ [Some zero_family]) t") (simp_all add: Let_def)
qed

theorem zero_family_appended_witness:
  "\<exists>run fams. decodeAndStoreMetrics accepting_server ''tenant''
       (body_stream [named ''a'', named ''b'']) keep = Some run
     \<and> filtered (calls run) = [fams]
     \<and> length fams = 3
     \<and> take 2 fams = [Some (named ''a''), Some (named ''b'')]
     \<and> last fams = Some zero_family
     \<and> fams \<noteq> []"
  using zero_family_appended [of "[named ''a'', named ''b'']"
      "body_stream [named ''a'', named ''b'']" accepting_server "''tenant''" keep]
  by (simp add: body_stream_def numeral_2_eq_2 numeral_3_eq_3)

text \<open>
  C3: when the decoder reports an error other than the end of the stream after the
  families \<open>fs\<close> (of any length, also none), the pipeline returns that error and
  \<open>WriteMetrics\<close> is not called.
\<close>

theorem decode_error_discards:
  assumes "\<forall>j<length fs. decoder j = Decoded (fs ! j)"
    and "decoder (length fs) = DecodeFailed err" and "err \<noteq> EOF"
  shows "\<exists>run. decodeAndStoreMetrics s partitionKey decoder t = Some run
           \<and> returned run = Some err \<and> stored (calls run) = []"
  unfolding decodeAndStoreMetrics_def decode_loop_fails [OF assms] by simp

theorem decode_error_discards_witness:
  "Err ''bad'' \<noteq> EOF \<and> (\<exists>run. decodeAndStoreMetrics accepting_server ''tenant''
       (broken_stream [named ''a''] (Err ''bad'')) keep = Some run
     \<and> returned run = Some (Err ''bad'') \<and> stored (calls run) = [])"
  using decode_error_discards [of "[named ''a'']"
      "broken_stream [named ''a''] (Err ''bad'')" "Err ''bad''" accepting_server "''tenant''" keep]
  by (simp add: broken_stream_def)


section \<open>Responses and steps of the handler\<close>

lemma status_at_select: "status ([Validate, NewDecoder, Go] @ es) = status es"
  by simp

lemma body_at_select: "body ([Validate, NewDecoder, Go] @ es) = body es"
  by simp

lemma status_respond:
  "status (respond partitionKey (Some e) @ es) =
     (if e = ErrWriteLimitReached partitionKey then 429 else 500)"
  by (simp add: respond_def http_Error_def)

lemma body_respond:
  "body (respond partitionKey (Some e) @ [Cancel, BodyClose]) = Error e @ [CHR 0x0A]"
  by (simp add: respond_def http_Error_def)

lemma returned_is_store_result:
  assumes "decodeAndStoreMetrics s partitionKey decoder t = Some run"
    and "stored (calls run) = [batch]"
  shows "returned run = store_WriteMetrics s batch"
  using assms
  by (auto simp: decodeAndStoreMetrics_def Let_def split: option.splits sum.splits)

lemma handler_returns_by_timeout:
  assumes "step cap s partitionKey t decoder \<sigma> \<sigma>'"
    and "handler \<sigma> = Selecting" and "goroutine \<sigma> = Running" and "errCh \<sigma> = []"
    and "handler \<sigma>' = HandlerReturned"
  shows "\<sigma>' = Post_timeout \<sigma>"
  using assms by (cases rule: step.cases) simp_all

lemma handler_return_closes:
  assumes "step cap s partitionKey t decoder \<sigma> \<sigma>'"
    and "handler \<sigma> = Selecting" and "handler \<sigma>' = HandlerReturned"
  shows "last (effects \<sigma>') = BodyClose"
  using assms
  by (cases rule: step.cases) (simp_all add: Post_timeout_def Post_received_def)

lemma blocked_send:
  assumes "handler \<sigma> = HandlerReturned" and "goroutine \<sigma> = Sending err"
    and "ctx_done \<sigma>" and "errCh \<sigma> = []"
  shows "\<not> Post_step s partitionKey t decoder \<sigma> \<sigma>'"
proof
  assume "Post_step s partitionKey t decoder \<sigma> \<sigma>'"
  then show False
    using assms by (cases rule: step.cases) (simp_all add: errCh_cap_def)
qed

lemma coherent_started: "coherent s partitionKey t decoder es (started es)"
  by (simp add: coherent_def started_def)

lemma coherent_step:
  assumes "Post_step s partitionKey t decoder \<sigma> \<sigma>'"
    and "coherent s partitionKey t decoder es \<sigma>"
  shows "coherent s partitionKey t decoder es \<sigma>'"
  using assms
proof (cases rule: step.cases)
  case ctx_fires
  then show ?thesis
    using assms(2) by (auto simp: coherent_def split: goroutine_state.splits handler_state.splits option.splits)
next
  case (pipeline_returns run)
  then show ?thesis
    using assms(2) by (auto simp: coherent_def split: goroutine_state.splits handler_state.splits option.splits)
next
  case (send_buffered err)
  then show ?thesis
    by (simp add: errCh_cap_def)
next
  case (send_received err)
  then show ?thesis
    using assms(2)
    by (auto simp: coherent_def Post_received_def split: goroutine_state.splits handler_state.splits option.splits)
next
  case (buffer_received err rest)
  then show ?thesis
    using assms(2) by (simp add: coherent_def)
next
  case timeout
  then show ?thesis
    using assms(2)
    by (auto simp: coherent_def Post_timeout_def timeout_response_def
        split: goroutine_state.splits handler_state.splits option.splits)
qed

lemma coherent_reachable:
  assumes "(Post_step s partitionKey t decoder)\<^sup>*\<^sup>* (started es) \<sigma>"
  shows "coherent s partitionKey t decoder es \<sigma>"
  using assms
proof (induction rule: rtranclp_induct)
  case base
  show ?case by (rule coherent_started)
next
  case (step \<sigma> \<sigma>')
  then show ?case by (blast intro: coherent_step)
qed

lemma delivered_effects:
  assumes "(Post_step s partitionKey t decoder)\<^sup>*\<^sup>* (started es) \<sigma>"
    and "decodeAndStoreMetrics s partitionKey decoder (Transform t) = Some run"
    and "goroutine \<sigma> = Sent"
  shows "handler \<sigma> = HandlerReturned
    \<and> effects \<sigma> = es @ respond partitionKey (returned run) @ [Cancel, BodyClose]"
  using coherent_reachable [OF assms(1)] assms(2,3) by (simp add: coherent_def)

lemma undelivered_effects:
  assumes "(Post_step s partitionKey t decoder)\<^sup>*\<^sup>* (started es) \<sigma>"
    and "handler \<sigma> = HandlerReturned" and "goroutine \<sigma> \<noteq> Sent"
  shows "ctx_done \<sigma> \<and> effects \<sigma> = es @ timeout_response"
  using coherent_reachable [OF assms(1)] assms(2,3) by (simp add: coherent_def)

lemma Post_begin_Started:
  assumes "Post_begin lib s req = Started partitionKey t decoder es"
  shows "es = [Validate, NewDecoder, Go]"
  using assms
  by (auto simp: Post_begin_def Let_def split: if_splits sum.splits prod.splits)

lemma reach_delivered:
  assumes "decodeAndStoreMetrics s partitionKey decoder (Transform t) = Some run"
    and "handler \<sigma> = Selecting" and "goroutine \<sigma> = Running" and "errCh \<sigma> = []"
  shows "(Post_step s partitionKey t decoder)\<^sup>*\<^sup>* \<sigma>
           (Post_received partitionKey (returned run) (\<sigma>\<lparr>goroutine := Sent\<rparr>))"
proof -
  let ?mid = "\<sigma>\<lparr>goroutine := Sending (returned run)\<rparr>"
  have s1: "Post_step s partitionKey t decoder \<sigma> ?mid"
    using assms(3,1) by (rule step.pipeline_returns)
  have "Post_step s partitionKey t decoder ?mid
      (Post_received partitionKey (returned run) (?mid\<lparr>goroutine := Sent\<rparr>))"
    by (rule step.send_received) (simp_all add: assms)
  then have s2: "Post_step s partitionKey t decoder ?mid
      (Post_received partitionKey (returned run) (\<sigma>\<lparr>goroutine := Sent\<rparr>))"
    by simp
  show ?thesis
    using s1 s2 by (meson rtranclp.rtrancl_into_rtrancl rtranclp.rtrancl_refl)
qed

lemma empty_body_run_kept:
  assumes "\<And>family. t family = Inr (Some family)"
  shows "decodeAndStoreMetrics s ''tenant'' (body_stream []) t =
     Some (empty_run (store_WriteMetrics s empty_batch))"
  using stored_one_more [of "[]" "body_stream []" t s "''tenant''"] assms
  by (simp add: body_stream_def empty_run_def empty_batch_def)

lemma status_timeout_response: "status ([Validate, NewDecoder, Go] @ timeout_response) = 500"
  by (simp add: timeout_response_def http_Error_def)

lemma body_timeout_response:
  "body ([Validate, NewDecoder, Go] @ timeout_response) = ''Timeout while storing metrics'' @ [CHR 0x0A]"
  by (simp add: timeout_response_def http_Error_def)

lemma effects_Post_timeout: "effects (Post_timeout \<sigma>) = effects \<sigma> @ timeout_response"
  by (simp add: Post_timeout_def timeout_response_def)

lemma sending_is_pipeline_result:
  assumes "(Post_step s partitionKey t decoder)\<^sup>*\<^sup>* (started es) \<sigma>"
    and "goroutine \<sigma> = Sending err"
  shows "\<exists>run. decodeAndStoreMetrics s partitionKey decoder (Transform t) = Some run
           \<and> err = returned run"
  using coherent_reachable [OF assms(1)] assms(2)
  by (auto simp: coherent_def split: option.splits)

section \<open>Properties of the handler\<close>

text \<open>
  In the properties below, \<open>Decode\<close> and \<open>WriteMetrics\<close> are called only inside
  \<open>decodeAndStoreMetrics\<close>, which runs only in the goroutine of line 66 (the effect
  \<open>Go\<close>), on the decoder of line 63 (the effect \<open>NewDecoder\<close>), the only reader of the
  body. A handler that returns before the goroutine is started has called neither.
\<close>

text \<open>
  C2: take a request for which the handler started the pipeline under the partition key
  \<open>P\<close>, a pipeline that reached storage, and \<open>WriteMetrics\<close> returning the error
  \<open>err\<close>. The pipeline returns \<open>err\<close> as it is, and in every state that the handler and
  the goroutine reach in which the goroutine has delivered its outcome, the handler has
  returned and has answered as follows. If \<open>err\<close> is the rate-limit error of \<open>P\<close>, the
  status is 429 and the body is the message of the error, which holds \<open>P\<close>; for every
  other error the status is 500, with the message of the error as body.
\<close>

theorem rate_limit_status:
  assumes "Post_begin lib s req = Started P t decoder es"
    and "(Post_step s P t decoder)\<^sup>*\<^sup>* (started es) \<sigma>"
    and "goroutine \<sigma> = Sent"
    and "decodeAndStoreMetrics s P decoder (Transform t) = Some run"
    and "stored (calls run) = [batch]"
    and "store_WriteMetrics s batch = Some err"
  shows "returned run = Some err \<and> handler \<sigma> = HandlerReturned \<and>
    (if err = ErrWriteLimitReached P
     then status (effects \<sigma>) = 429
        \<and> body (effects \<sigma>) = Error err @ [CHR 0x0A]
        \<and> (\<exists>before after. body (effects \<sigma>) = before @ P @ after)
     else status (effects \<sigma>) = 500 \<and> body (effects \<sigma>) = Error err @ [CHR 0x0A])"
proof -
  have es: "es = [Validate, NewDecoder, Go]"
    using assms(1) by (rule Post_begin_Started)
  have ret: "returned run = Some err"
    using returned_is_store_result [OF assms(4,5)] assms(6) by simp
  have del: "handler \<sigma> = HandlerReturned
      \<and> effects \<sigma> = es @ respond P (returned run) @ [Cancel, BodyClose]"
    using assms(2,4,3) by (rule delivered_effects)
  then have eff: "effects \<sigma> = [Validate, NewDecoder, Go] @ respond P (Some err) @ [Cancel, BodyClose]"
    by (simp add: es ret)
  have st: "status (effects \<sigma>) = (if err = ErrWriteLimitReached P then 429 else 500)"
    unfolding eff status_at_select by (rule status_respond)
  have bd: "body (effects \<sigma>) = Error err @ [CHR 0x0A]"
    unfolding eff body_at_select by (rule body_respond)
  show ?thesis
  proof (cases "err = ErrWriteLimitReached P")
    case True
    have "body (effects \<sigma>) = ''write limit reached for key '' @ P @ [CHR 0x0A]"
      unfolding bd using True by simp
    then have "\<exists>before after. body (effects \<sigma>) = before @ P @ after"
      by blast
    then show ?thesis
      using True ret del st bd by simp
  next
    case False
    then show ?thesis
      using ret del st bd by simp
  qed
qed

theorem rate_limit_status_witness:
  "Post_begin byte_library limiting_server empty_post
     = Started ''tenant'' [keep, keep] (body_stream []) [Validate, NewDecoder, Go]
   \<and> (Post_step limiting_server ''tenant'' [keep, keep] (body_stream []))\<^sup>*\<^sup>*
        (started [Validate, NewDecoder, Go]) (delivered (Some (ErrWriteLimitReached ''tenant'')))
   \<and> goroutine (delivered (Some (ErrWriteLimitReached ''tenant''))) = Sent
   \<and> decodeAndStoreMetrics limiting_server ''tenant'' (body_stream []) (Transform [keep, keep])
       = Some (empty_run (Some (ErrWriteLimitReached ''tenant'')))
   \<and> stored (calls (empty_run (Some (ErrWriteLimitReached ''tenant'')))) = [empty_batch]
   \<and> store_WriteMetrics limiting_server empty_batch = Some (ErrWriteLimitReached ''tenant'')
   \<and> status (effects (delivered (Some (ErrWriteLimitReached ''tenant'')))) = 429
   \<and> body (effects (delivered (Some (ErrWriteLimitReached ''tenant''))))
       = ''write limit reached for key tenant'' @ [CHR 0x0A]
   \<and> Post_begin byte_library full_server empty_post
     = Started ''tenant'' [keep, keep] (body_stream []) [Validate, NewDecoder, Go]
   \<and> (Post_step full_server ''tenant'' [keep, keep] (body_stream []))\<^sup>*\<^sup>*
        (started [Validate, NewDecoder, Go]) (delivered (Some (Err ''disk full'')))
   \<and> store_WriteMetrics full_server empty_batch = Some (Err ''disk full'')
   \<and> status (effects (delivered (Some (Err ''disk full'')))) = 500"
proof -
  let ?limited = "Some (ErrWriteLimitReached ''tenant'')" and ?full = "Some (Err ''disk full'')"
  have b1: "Post_begin byte_library limiting_server empty_post
     = Started ''tenant'' [keep, keep] (body_stream []) [Validate, NewDecoder, Go]"
    by (simp add: Post_begin_def empty_post_def limiting_server_def byte_library_def With_def)
  have b2: "Post_begin byte_library full_server empty_post
     = Started ''tenant'' [keep, keep] (body_stream []) [Validate, NewDecoder, Go]"
    by (simp add: Post_begin_def empty_post_def full_server_def byte_library_def With_def)
  have w1: "store_WriteMetrics limiting_server empty_batch = ?limited"
    by (simp add: limiting_server_def empty_batch_def)
  have w2: "store_WriteMetrics full_server empty_batch = ?full"
    by (simp add: full_server_def)
  have run1: "decodeAndStoreMetrics limiting_server ''tenant'' (body_stream []) (Transform [keep, keep])
      = Some (empty_run ?limited)"
    using empty_body_run_kept [of "Transform [keep, keep]" limiting_server] w1
    by (simp add: keep_def)
  have run2: "decodeAndStoreMetrics full_server ''tenant'' (body_stream []) (Transform [keep, keep])
      = Some (empty_run ?full)"
    using empty_body_run_kept [of "Transform [keep, keep]" full_server] w2
    by (simp add: keep_def)
  have st: "stored (calls (empty_run err)) = [empty_batch]" for err
    by (simp add: empty_run_def)
  have r1: "(Post_step limiting_server ''tenant'' [keep, keep] (body_stream []))\<^sup>*\<^sup>*
        (started [Validate, NewDecoder, Go]) (delivered ?limited)"
    using reach_delivered [OF run1, of "started [Validate, NewDecoder, Go]"]
    by (simp add: delivered_def started_def empty_run_def)
  have r2: "(Post_step full_server ''tenant'' [keep, keep] (body_stream []))\<^sup>*\<^sup>*
        (started [Validate, NewDecoder, Go]) (delivered ?full)"
    using reach_delivered [OF run2, of "started [Validate, NewDecoder, Go]"]
    by (simp add: delivered_def started_def empty_run_def)
  have g: "goroutine (delivered err) = Sent" for err
    by (simp add: delivered_def Post_received_def)
  show ?thesis
    using rate_limit_status [OF b1 r1 g run1 st w1] rate_limit_status [OF b2 r2 g run2 st w2]
      b1 b2 r1 r2 g run1 st w1 w2
    by simp
qed

text \<open>
  C4, as stated: once the context fires before the pipeline delivers its outcome, the
  handler answers 500 with the timeout message. In the state \<open>deadline_passed\<close> the
  context is done, the handler is in the \<open>select\<close> and the pipeline is still running;
  the pipeline then returns and comes to its send before the handler has taken a branch,
  both branches of the \<open>select\<close> are ready, and the handler receives the outcome and
  answers 200 with an empty body.
\<close>

theorem outcome_after_deadline:
  "(Post_step accepting_server ''tenant'' [keep, keep] (body_stream []))\<^sup>*\<^sup>*
      (started [Validate, NewDecoder, Go]) deadline_passed
   \<and> handler deadline_passed = Selecting \<and> ctx_done deadline_passed
   \<and> goroutine deadline_passed = Running \<and> errCh deadline_passed = []
   \<and> (Post_step accepting_server ''tenant'' [keep, keep] (body_stream []))\<^sup>*\<^sup>*
        deadline_passed answered_late
   \<and> handler answered_late = HandlerReturned
   \<and> status (effects answered_late) = 200
   \<and> body (effects answered_late) = []"
proof -
  let ?step = "Post_step accepting_server ''tenant'' [keep, keep] (body_stream [])"
  have run: "decodeAndStoreMetrics accepting_server ''tenant'' (body_stream []) (Transform [keep, keep])
      = Some (empty_run None)"
    using empty_body_run_kept [of "Transform [keep, keep]" accepting_server]
    by (simp add: keep_def accepting_server_def)
  have "?step (started [Validate, NewDecoder, Go]) deadline_passed"
    unfolding deadline_passed_def by (rule step.ctx_fires) (simp add: started_def)
  then have fired: "?step\<^sup>*\<^sup>* (started [Validate, NewDecoder, Go]) deadline_passed"
    by (rule r_into_rtranclp)
  have now: "handler deadline_passed = Selecting \<and> ctx_done deadline_passed
      \<and> goroutine deadline_passed = Running \<and> errCh deadline_passed = []"
    by (simp add: deadline_passed_def started_def)
  have late: "?step\<^sup>*\<^sup>* deadline_passed answered_late"
    using reach_delivered [OF run, of deadline_passed] now
    by (simp add: answered_late_def empty_run_def)
  have answer: "handler answered_late = HandlerReturned
      \<and> status (effects answered_late) = 200 \<and> body (effects answered_late) = []"
    by (simp add: answered_late_def Post_received_def respond_def deadline_passed_def started_def)
  show ?thesis
    using fired now late answer by blast
qed

text \<open>
  C4, amended: in every state that the handler and the goroutine of a request reach,
  \<^item> a handler that has returned before the pipeline delivered its outcome did so with
    the context done, and answered 500 with the fixed message
    \<open>Timeout while storing metrics\<close>;
  \<^item> a handler in the \<open>select\<close> with the context done can take the timeout branch,
    whatever the goroutine is doing: it answers 500 with the fixed message and returns,
    and the goroutine is left as it was;
  \<^item> while the pipeline has not yet returned, the timeout branch is the only way for the
    handler to return;
  \<^item> a pipeline that never ends stays running, so the timeout branch remains the only
    way to return.
\<close>

theorem timeout_before_delivery:
  assumes "(Post_step s partitionKey t decoder)\<^sup>*\<^sup>* (started [Validate, NewDecoder, Go]) \<sigma>"
  shows "(handler \<sigma> = HandlerReturned \<and> goroutine \<sigma> \<noteq> Sent \<longrightarrow>
            ctx_done \<sigma> \<and> status (effects \<sigma>) = 500
            \<and> body (effects \<sigma>) = ''Timeout while storing metrics'' @ [CHR 0x0A])
    \<and> (handler \<sigma> = Selecting \<and> ctx_done \<sigma> \<longrightarrow>
            Post_step s partitionKey t decoder \<sigma> (Post_timeout \<sigma>)
            \<and> handler (Post_timeout \<sigma>) = HandlerReturned
            \<and> goroutine (Post_timeout \<sigma>) = goroutine \<sigma>
            \<and> status (effects (Post_timeout \<sigma>)) = 500
            \<and> body (effects (Post_timeout \<sigma>)) = ''Timeout while storing metrics'' @ [CHR 0x0A])
    \<and> (handler \<sigma> = Selecting \<and> goroutine \<sigma> = Running \<longrightarrow>
            (\<forall>\<sigma>'. Post_step s partitionKey t decoder \<sigma> \<sigma>' \<and> handler \<sigma>' = HandlerReturned
                  \<longrightarrow> \<sigma>' = Post_timeout \<sigma>))
    \<and> (decodeAndStoreMetrics s partitionKey decoder (Transform t) = None \<longrightarrow>
            goroutine \<sigma> = Running)"
proof -
  have inv: "coherent s partitionKey t decoder [Validate, NewDecoder, Go] \<sigma>"
    using assms by (rule coherent_reachable)
  have returned: "handler \<sigma> = HandlerReturned \<and> goroutine \<sigma> \<noteq> Sent \<longrightarrow>
            ctx_done \<sigma> \<and> status (effects \<sigma>) = 500
            \<and> body (effects \<sigma>) = ''Timeout while storing metrics'' @ [CHR 0x0A]"
    using undelivered_effects [OF assms] status_timeout_response body_timeout_response
    by simp
  have selecting: "handler \<sigma> = Selecting \<longrightarrow> effects \<sigma> = [Validate, NewDecoder, Go]"
    using inv by (auto simp: coherent_def)
  have enabled: "handler \<sigma> = Selecting \<and> ctx_done \<sigma> \<longrightarrow>
            Post_step s partitionKey t decoder \<sigma> (Post_timeout \<sigma>)
            \<and> handler (Post_timeout \<sigma>) = HandlerReturned
            \<and> goroutine (Post_timeout \<sigma>) = goroutine \<sigma>
            \<and> status (effects (Post_timeout \<sigma>)) = 500
            \<and> body (effects (Post_timeout \<sigma>)) = ''Timeout while storing metrics'' @ [CHR 0x0A]"
    using selecting status_timeout_response body_timeout_response
    by (auto intro: step.timeout simp: effects_Post_timeout) (simp_all add: Post_timeout_def)
  have empty: "errCh \<sigma> = []"
    using inv by (simp add: coherent_def)
  have only: "handler \<sigma> = Selecting \<and> goroutine \<sigma> = Running \<longrightarrow>
            (\<forall>\<sigma>'. Post_step s partitionKey t decoder \<sigma> \<sigma>' \<and> handler \<sigma>' = HandlerReturned
                  \<longrightarrow> \<sigma>' = Post_timeout \<sigma>)"
    using empty by (blast intro: handler_returns_by_timeout)
  have endless: "decodeAndStoreMetrics s partitionKey decoder (Transform t) = None \<longrightarrow>
            goroutine \<sigma> = Running"
    using inv by (cases "goroutine \<sigma>") (auto simp: coherent_def split: option.splits)
  show ?thesis
    using returned enabled only endless by blast
qed

theorem timeout_before_delivery_witness:
  "(Post_step accepting_server ''tenant'' [keep, keep] (body_stream []))\<^sup>*\<^sup>*
      (started [Validate, NewDecoder, Go]) deadline_passed
   \<and> handler deadline_passed = Selecting \<and> ctx_done deadline_passed
   \<and> Post_step accepting_server ''tenant'' [keep, keep] (body_stream [])
        deadline_passed (Post_timeout deadline_passed)
   \<and> (Post_step accepting_server ''tenant'' [keep, keep] (body_stream []))\<^sup>*\<^sup>*
      (started [Validate, NewDecoder, Go]) (Post_timeout deadline_passed)
   \<and> handler (Post_timeout deadline_passed) = HandlerReturned
   \<and> goroutine (Post_timeout deadline_passed) \<noteq> Sent
   \<and> ctx_done (Post_timeout deadline_passed)
   \<and> status (effects (Post_timeout deadline_passed)) = 500
   \<and> body (effects (Post_timeout deadline_passed)) = ''Timeout while storing metrics'' @ [CHR 0x0A]"
proof -
  let ?step = "Post_step accepting_server ''tenant'' [keep, keep] (body_stream [])"
  have "?step (started [Validate, NewDecoder, Go]) deadline_passed"
    unfolding deadline_passed_def by (rule step.ctx_fires) (simp add: started_def)
  then have fired: "?step\<^sup>*\<^sup>* (started [Validate, NewDecoder, Go]) deadline_passed"
    by (rule r_into_rtranclp)
  have now: "handler deadline_passed = Selecting" "ctx_done deadline_passed"
    by (simp_all add: deadline_passed_def started_def)
  have taken: "?step deadline_passed (Post_timeout deadline_passed)"
    using timeout_before_delivery [OF fired] now by blast
  have reach: "?step\<^sup>*\<^sup>* (started [Validate, NewDecoder, Go]) (Post_timeout deadline_passed)"
    using fired taken by (rule rtranclp.rtrancl_into_rtrancl)
  have h: "handler (Post_timeout deadline_passed) = HandlerReturned"
    and g: "goroutine (Post_timeout deadline_passed) \<noteq> Sent"
    by (simp_all add: Post_timeout_def deadline_passed_def started_def)
  show ?thesis
    using timeout_before_delivery [OF reach] fired now taken reach h g by blast
qed

text \<open>
  C5: for a POST request that the validator rejects with \<open>err\<close>, the handler returns
  with status 500 and the message of \<open>err\<close> as body, and neither creates the decoder
  nor starts the pipeline.
\<close>

theorem validator_error:
  assumes "Method req = ''POST''" and "validator_Validate s req = Inl err"
  shows "\<exists>es. Post_begin lib s req = Returned es
    \<and> status es = 500 \<and> body es = Error err @ [CHR 0x0A]
    \<and> NewDecoder \<notin> set es \<and> Go \<notin> set es"
  using assms by (simp add: Post_begin_def http_Error_def)

theorem validator_error_witness:
  "Method post_request = ''POST''
   \<and> validator_Validate failing_server post_request = Inl (Err ''unauthorized'')
   \<and> (\<exists>es. Post_begin byte_library failing_server post_request = Returned es
        \<and> status es = 500 \<and> body es = ''unauthorized'' @ [CHR 0x0A]
        \<and> NewDecoder \<notin> set es \<and> Go \<notin> set es)"
  using validator_error [of post_request failing_server "Err ''unauthorized''" byte_library]
  by (simp add: post_request_def failing_server_def)

text \<open>
  C7: for a request whose method is not POST, the handler writes the status 405 and
  returns; that write is its only effect, so the validator is not called, no decoder is
  created, the body is not read and the pipeline is not started.
\<close>

theorem method_not_allowed:
  assumes "Method req \<noteq> ''POST''"
  shows "\<exists>es. Post_begin lib s req = Returned es \<and> es = [WriteHeader 405]
    \<and> status es = 405 \<and> body es = []"
  using assms by (simp add: Post_begin_def)

theorem method_not_allowed_witness:
  "Method get_request \<noteq> ''POST''
   \<and> Post_begin byte_library accepting_server get_request = Returned [WriteHeader 405]
   \<and> status [WriteHeader 405] = 405"
  using method_not_allowed [of get_request byte_library accepting_server]
  by (simp add: get_request_def)

text \<open>
  C8: for a POST request that the validator accepts with the transformer \<open>transforms\<close>,
  the chain handed to the pipeline is \<open>transforms\<close> followed by the process-wide
  transformer of the server, and
  \<^item> the chain runs them on a family in that order: the process-wide transformer sees
    the family as \<open>transforms\<close> left it, and not at all when \<open>transforms\<close> failed or
    dropped it;
  \<^item> on the batch that the loop decoded, the pipeline does what the two passes do when
    applied to the batch in that order: when they succeed, \<open>WriteMetrics\<close> is handed the
    packed batch they left; when one of them fails, the pipeline returns an error and
    \<open>WriteMetrics\<close> is not called;
  \<^item> what the goroutine of the request sends is what this pipeline returned.
\<close>

theorem chain_order:
  assumes "Method req = ''POST''"
    and "validator_Validate s req = Inr (partitionKey, transforms)"
  shows "\<exists>decoder es.
      Post_begin lib s req = Started partitionKey [transforms, transformer s] decoder es
    \<and> Transform [transforms, transformer s] family =
        (case transforms family of
           Inl err \<Rightarrow> Inl err
         | Inr None \<Rightarrow> Inr None
         | Inr (Some family') \<Rightarrow> transformer s family')
    \<and> (\<forall>fams. decode_loop decoder 0 [] = Some (Inr fams) \<longrightarrow>
         (case passes_in_order transforms (transformer s) fams of
            Inr fams' \<Rightarrow>
              decodeAndStoreMetrics s partitionKey decoder (Transform [transforms, transformer s]) =
                Some \<lparr>returned = store_WriteMetrics s
                         \<lparr>PartitionKey = partitionKey, Families = Pack fams'\<rparr>,
                      calls = [FilterCall fams,
                               WriteMetricsCall
                                 \<lparr>PartitionKey = partitionKey, Families = Pack fams'\<rparr>]\<rparr>
          | Inl err \<Rightarrow>
              (\<exists>err'. decodeAndStoreMetrics s partitionKey decoder
                        (Transform [transforms, transformer s]) =
                Some \<lparr>returned = Some err', calls = [FilterCall fams]\<rparr>)))
    \<and> (\<forall>\<sigma> err. (Post_step s partitionKey [transforms, transformer s] decoder)\<^sup>*\<^sup>* (started es) \<sigma>
           \<and> goroutine \<sigma> = Sending err \<longrightarrow>
         (\<exists>run. decodeAndStoreMetrics s partitionKey decoder
                   (Transform [transforms, transformer s]) = Some run
                \<and> err = returned run))"
proof -
  obtain decoder where begun:
    "Post_begin lib s req =
       Started partitionKey [transforms, transformer s] decoder [Validate, NewDecoder, Go]"
    using assms by (simp add: Post_begin_def With_def Let_def)
  have family: "Transform [transforms, transformer s] family =
        (case transforms family of
           Inl err \<Rightarrow> Inl err
         | Inr None \<Rightarrow> Inr None
         | Inr (Some family') \<Rightarrow> transformer s family')"
    by (rule Transform_pair)
  show ?thesis
    using begun family pipeline_in_order sending_is_pipeline_result by blast
qed

theorem chain_order_witness:
  "Method post_request = ''POST''
   \<and> validator_Validate renaming_server post_request = Inr (''tenant'', rename)
   \<and> Post_begin byte_library renaming_server post_request
       = Started ''tenant'' [rename, drop_renamed] (body_stream [named ''a'', named ''b''])
           [Validate, NewDecoder, Go]
   \<and> Transform [rename, drop_renamed] (named ''a'') = Inr None
   \<and> Transform [drop_renamed, rename] (named ''a'') \<noteq> Inr None
   \<and> decode_loop (body_stream [named ''a'', named ''b'']) 0 [] = Some (Inr decoded_ab)
   \<and> passes_in_order rename drop_renamed decoded_ab = Inr [None, None, None]
   \<and> passes_in_order drop_renamed rename decoded_ab \<noteq> Inr [None, None, None]
   \<and> decodeAndStoreMetrics renaming_server ''tenant'' (body_stream [named ''a'', named ''b''])
        (Transform [rename, drop_renamed])
       = Some \<lparr>returned = None,
               calls = [FilterCall decoded_ab,
                        WriteMetricsCall \<lparr>PartitionKey = ''tenant'', Families = []\<rparr>]\<rparr>"
proof -
  let ?decoder = "body_stream [named ''a'', named ''b'']"
  have m: "Method post_request = ''POST''"
    by (simp add: post_request_def)
  have v: "validator_Validate renaming_server post_request = Inr (''tenant'', rename)"
    by (simp add: renaming_server_def)
  have t: "transformer renaming_server = drop_renamed"
    and w: "store_WriteMetrics renaming_server batch = None" for batch
    by (simp_all add: renaming_server_def)
  have b: "Post_begin byte_library renaming_server post_request
       = Started ''tenant'' [rename, drop_renamed] ?decoder [Validate, NewDecoder, Go]"
    by (simp add: Post_begin_def post_request_def renaming_server_def byte_library_def With_def)
  have other: "Transform [drop_renamed, rename] (named ''a'') \<noteq> Inr None"
    by (simp add: drop_renamed_def rename_def named_def GetName_def)
  have loop: "decode_loop ?decoder 0 [] = Some (Inr decoded_ab)"
    using decode_loop_families [of "[named ''a'', named ''b'']" ?decoder]
    by (simp add: body_stream_def decoded_ab_def)
  have fwd: "passes_in_order rename drop_renamed decoded_ab = Inr [None, None, None]"
    by (simp add: passes_in_order_def decoded_ab_def rename_def drop_renamed_def GetName_def)
  have bwd: "passes_in_order drop_renamed rename decoded_ab \<noteq> Inr [None, None, None]"
    by (simp add: passes_in_order_def decoded_ab_def rename_def drop_renamed_def GetName_def
        named_def zero_family_def)
  obtain decoder es where c:
    "Post_begin byte_library renaming_server post_request
       = Started ''tenant'' [rename, transformer renaming_server] decoder es"
    "Transform [rename, transformer renaming_server] (named ''a'') =
        (case rename (named ''a'') of
           Inl err \<Rightarrow> Inl err
         | Inr None \<Rightarrow> Inr None
         | Inr (Some family') \<Rightarrow> transformer renaming_server family')"
    "\<forall>fams. decode_loop decoder 0 [] = Some (Inr fams) \<longrightarrow>
         (case passes_in_order rename (transformer renaming_server) fams of
            Inr fams' \<Rightarrow>
              decodeAndStoreMetrics renaming_server ''tenant'' decoder
                  (Transform [rename, transformer renaming_server]) =
                Some \<lparr>returned = store_WriteMetrics renaming_server
                         \<lparr>PartitionKey = ''tenant'', Families = Pack fams'\<rparr>,
                      calls = [FilterCall fams,
                               WriteMetricsCall
                                 \<lparr>PartitionKey = ''tenant'', Families = Pack fams'\<rparr>]\<rparr>
          | Inl err \<Rightarrow>
              (\<exists>err'. decodeAndStoreMetrics renaming_server ''tenant'' decoder
                        (Transform [rename, transformer renaming_server]) =
                Some \<lparr>returned = Some err', calls = [FilterCall fams]\<rparr>))"
    using chain_order [OF m v, of byte_library "named ''a''"] by blast
  have d: "decoder = ?decoder"
    using c(1) b by simp
  have first: "Transform [rename, drop_renamed] (named ''a'') = Inr None"
    using c(2) by (simp add: t rename_def drop_renamed_def GetName_def)
  have run: "decodeAndStoreMetrics renaming_server ''tenant'' ?decoder
        (Transform [rename, drop_renamed])
       = Some \<lparr>returned = None,
               calls = [FilterCall decoded_ab,
                        WriteMetricsCall \<lparr>PartitionKey = ''tenant'', Families = []\<rparr>]\<rparr>"
    using c(3) loop fwd by (simp add: d t w Pack_def)
  show ?thesis
    using m v b first other loop fwd bwd run by blast
qed

text \<open>
  C9, as stated: the handler closes the body on every exit path, the rejection of a
  method other than POST included. On a GET request the handler returns from line 40,
  before the deferred close of line 42 is registered, and the body is not closed.
\<close>

theorem close_skipped_on_rejection:
  "Post_begin byte_library accepting_server get_request = Returned [WriteHeader 405]
   \<and> BodyClose \<notin> set [WriteHeader 405]"
  by (simp add: Post_begin_def get_request_def)

text \<open>
  C9, amended: for a POST request the handler closes the body on every exit path, as the
  last thing it does: when the validator fails, when the timeout branch is taken and when
  an outcome of the pipeline is received.
\<close>

theorem body_closed_after_method_check:
  assumes "Method req = ''POST''"
  shows "(\<forall>es. Post_begin lib s req = Returned es \<longrightarrow> last es = BodyClose)
    \<and> (\<forall>partitionKey t decoder es \<sigma> \<sigma>'.
          Post_begin lib s req = Started partitionKey t decoder es
          \<and> Post_step s partitionKey t decoder \<sigma> \<sigma>'
          \<and> handler \<sigma> = Selecting \<and> handler \<sigma>' = HandlerReturned
          \<longrightarrow> last (effects \<sigma>') = BodyClose)"
proof -
  have "\<forall>es. Post_begin lib s req = Returned es \<longrightarrow> last es = BodyClose"
    using assms
    by (auto simp: Post_begin_def http_Error_def Let_def split: sum.splits prod.splits)
  then show ?thesis
    by (blast intro: handler_return_closes)
qed

theorem body_closed_after_method_check_witness:
  "Method post_request = ''POST''
   \<and> Post_begin byte_library failing_server post_request
       = Returned [Validate, WriteHeader 500, Write (''unauthorized'' @ [CHR 0x0A]), Cancel, BodyClose]
   \<and> last [Validate, WriteHeader 500, Write (''unauthorized'' @ [CHR 0x0A]), Cancel, BodyClose]
       = BodyClose
   \<and> Post_begin byte_library accepting_server post_request
       = Started ''tenant'' [keep, keep] (body_stream [named ''a'', named ''b''])
           [Validate, NewDecoder, Go]
   \<and> Post_step accepting_server ''tenant'' [keep, keep] (body_stream [named ''a'', named ''b''])
        deadline_passed (Post_timeout deadline_passed)
   \<and> handler deadline_passed = Selecting
   \<and> handler (Post_timeout deadline_passed) = HandlerReturned
   \<and> last (effects (Post_timeout deadline_passed)) = BodyClose"
proof -
  have m: "Method post_request = ''POST''"
    by (simp add: post_request_def)
  have r: "Post_begin byte_library failing_server post_request
       = Returned [Validate, WriteHeader 500, Write (''unauthorized'' @ [CHR 0x0A]), Cancel, BodyClose]"
    by (simp add: Post_begin_def post_request_def failing_server_def http_Error_def)
  have b: "Post_begin byte_library accepting_server post_request
       = Started ''tenant'' [keep, keep] (body_stream [named ''a'', named ''b''])
           [Validate, NewDecoder, Go]"
    by (simp add: Post_begin_def post_request_def accepting_server_def byte_library_def With_def)
  have sel: "handler deadline_passed = Selecting" and fired: "ctx_done deadline_passed"
    by (simp_all add: deadline_passed_def started_def)
  have st: "Post_step accepting_server ''tenant'' [keep, keep]
      (body_stream [named ''a'', named ''b'']) deadline_passed (Post_timeout deadline_passed)"
    using sel fired by (rule step.timeout)
  have ret: "handler (Post_timeout deadline_passed) = HandlerReturned"
    by (simp add: Post_timeout_def)
  have c1: "last [Validate, WriteHeader 500, Write (''unauthorized'' @ [CHR 0x0A]), Cancel, BodyClose]
       = BodyClose"
    using body_closed_after_method_check [OF m, of byte_library failing_server] r by blast
  have c2: "last (effects (Post_timeout deadline_passed)) = BodyClose"
    using body_closed_after_method_check [OF m, of byte_library accepting_server] b st sel ret
    by blast
  show ?thesis
    using m r b st sel ret c1 c2 by blast
qed

text \<open>
  C6: a request with an empty body whose deadline passes first. The handler takes the
  timeout branch and returns; the pipeline then comes to its send on the unbuffered
  channel, where nobody receives any more: from that state no step is possible, so the
  send never completes and the goroutine never ends.
\<close>

theorem send_blocks_after_timeout:
  "(Post_step accepting_server ''tenant'' [keep, keep] (body_stream []))\<^sup>*\<^sup>*
      (started [Validate, NewDecoder, Go]) abandoned
   \<and> handler abandoned = HandlerReturned
   \<and> goroutine abandoned = Sending None
   \<and> (\<forall>\<sigma>'. \<not> Post_step accepting_server ''tenant'' [keep, keep] (body_stream []) abandoned \<sigma>')"
proof -
  let ?step = "Post_step accepting_server ''tenant'' [keep, keep] (body_stream [])"
  have run: "decodeAndStoreMetrics accepting_server ''tenant'' (body_stream []) (Transform [keep, keep])
      = Some (empty_run None)"
    using stored_one_more [of "[]" "body_stream []" "Transform [keep, keep]" accepting_server "''tenant''"]
    by (simp add: body_stream_def keep_def empty_run_def empty_batch_def accepting_server_def)
  have s1: "?step (started [Validate, NewDecoder, Go]) deadline_passed"
    unfolding deadline_passed_def by (rule step.ctx_fires) (simp add: started_def)
  have s2: "?step deadline_passed (Post_timeout deadline_passed)"
    by (rule step.timeout) (simp_all add: deadline_passed_def started_def)
  have "?step (Post_timeout deadline_passed)
      ((Post_timeout deadline_passed)\<lparr>goroutine := Sending (returned (empty_run None))\<rparr>)"
    using _ run by (rule step.pipeline_returns)
      (simp add: Post_timeout_def deadline_passed_def started_def)
  then have s3: "?step (Post_timeout deadline_passed) abandoned"
    by (simp add: abandoned_def empty_run_def)
  have reach: "?step\<^sup>*\<^sup>* (started [Validate, NewDecoder, Go]) abandoned"
    using s1 s2 s3 by (meson rtranclp.rtrancl_into_rtrancl rtranclp.rtrancl_refl)
  have h: "handler abandoned = HandlerReturned" and g: "goroutine abandoned = Sending None"
    and c: "ctx_done abandoned" and e: "errCh abandoned = []"
    by (simp_all add: abandoned_def Post_timeout_def deadline_passed_def started_def)
  show ?thesis
    using reach h g blocked_send [OF h g c e] by blast
qed


end
